theory Spec2Isabelle
  imports Main "HOL-Library.Monad_Syntax" "HOL-Library.Multiset"
begin

section \<open>The attribute-order rule of ember-template-lint\<close>

text \<open>
  A shallow embedding of \<^verbatim>\<open>lib/rules/attribute-order.js\<close>. The rule instance
  (\<^verbatim>\<open>this\<close>) is a record that every method takes and returns; a JavaScript
  \<^verbatim>\<open>TypeError\<close> is the value \<open>None\<close> of the option monad; the arrays of a node
  that the code sorts or shifts in place are fields of the node, which the methods return
  updated. Calls of \<^verbatim>\<open>console.log\<close> have no effect on the rule and are left out.
\<close>

subsection \<open>Token types and the configuration\<close>

datatype TokenType = ARGUMENTS | ATTRIBUTES | MODIFIERS | SPLATTRIBUTES | COMMENTS

fun type_name :: "TokenType \<Rightarrow> string" where
  "type_name ARGUMENTS = ''arguments''"
| "type_name ATTRIBUTES = ''attributes''"
| "type_name MODIFIERS = ''modifiers''"
| "type_name SPLATTRIBUTES = ''splattributes''"
| "type_name COMMENTS = ''comments''"

text \<open>\<^verbatim>\<open>Object.values(TokenType)\<close>, in the order of the object literal.\<close>

definition token_types :: "TokenType list" where
  "token_types = [ARGUMENTS, ATTRIBUTES, MODIFIERS, SPLATTRIBUTES, COMMENTS]"

record Config =
  alphabetize :: bool
  order :: "TokenType list"

definition DEFAULT_CONFIG :: Config where
  "DEFAULT_CONFIG = \<lparr>alphabetize = True, order = [ARGUMENTS, ATTRIBUTES, MODIFIERS]\<rparr>"

text \<open>
  The raw value handed to \<^verbatim>\<open>parseConfig\<close>: a boolean, an object whose two known
  fields may each be absent, or a value whose \<^verbatim>\<open>typeof\<close> is neither
  \<^verbatim>\<open>'boolean'\<close> nor \<^verbatim>\<open>'object'\<close> (a string, a number,
  \<^verbatim>\<open>undefined\<close>). An \<^verbatim>\<open>order\<close> that is present is an array of category
  names, so it is truthy. The value \<^verbatim>\<open>null\<close> and arrays, whose \<^verbatim>\<open>typeof\<close> is
  \<^verbatim>\<open>'object'\<close> too, are not values of this type.
\<close>

record RawObject =
  raw_alphabetize :: "bool option"
  raw_order :: "TokenType list option"

datatype RawConfig = RawBool bool | RawObj RawObject | RawOther

datatype config_error = ConfigError

datatype parsed = Disabled | Enabled Config

text \<open>\<^verbatim>\<open>{ ...DEFAULT_CONFIG, ...config }\<close>: a field of the object wins over the default.\<close>

definition spread_config :: "Config \<Rightarrow> RawObject \<Rightarrow> Config" where
  "spread_config d obj =
     \<lparr>alphabetize = (case raw_alphabetize obj of None \<Rightarrow> alphabetize d | Some v \<Rightarrow> v),
      order = (case raw_order obj of None \<Rightarrow> order d | Some v \<Rightarrow> v)\<rparr>"

text \<open>
  \<^verbatim>\<open>isValidConfigObjectFormat\<close> lives in \<^verbatim>\<open>lib/helpers\<close>; it is the parameter
  \<open>valid\<close>, already applied to \<^verbatim>\<open>DEFAULT_CONFIG\<close>. The text that
  \<^verbatim>\<open>createErrorMessage\<close> builds for the \<^verbatim>\<open>Error\<close> is not modelled:
  \<open>ConfigError\<close> is the error thrown with it.
\<close>

definition parseConfig :: "(RawConfig \<Rightarrow> bool) \<Rightarrow> RawConfig \<Rightarrow> config_error + parsed" where
  "parseConfig valid raw =
     (if valid raw then
        (case raw of
           RawBool b \<Rightarrow> (if b then Inr (Enabled DEFAULT_CONFIG) else Inr Disabled)
         | RawObj obj \<Rightarrow>
             (case raw_order obj of
                None \<Rightarrow> Inr (Enabled (spread_config DEFAULT_CONFIG obj))
              | Some ord \<Rightarrow>
                  (if list_all (\<lambda>attribute. attribute \<in> set ord)
                        [ARGUMENTS, ATTRIBUTES, MODIFIERS]
                   then Inr (Enabled (spread_config DEFAULT_CONFIG obj))
                   else Inl ConfigError))
         | RawOther \<Rightarrow> Inr (Enabled DEFAULT_CONFIG))
      else Inl ConfigError)"

subsection \<open>JavaScript numbers, strings and arrays\<close>

text \<open>
  The numbers the rule computes with: integers, the two infinities that
  \<^verbatim>\<open>Math.max()\<close> and \<^verbatim>\<open>Math.min()\<close> start from, and \<^verbatim>\<open>NaN\<close>, which is
  what \<^verbatim>\<open>undefined\<close> becomes in a comparison. An index that may be
  \<^verbatim>\<open>undefined\<close> is an \<open>int option\<close>.
\<close>

datatype jsnum = NaN | NegInfinity | Num int | PosInfinity

fun js_lt :: "jsnum \<Rightarrow> jsnum \<Rightarrow> bool" where
  "js_lt (Num a) (Num b) = (a < b)"
| "js_lt NegInfinity (Num b) = True"
| "js_lt NegInfinity PosInfinity = True"
| "js_lt (Num a) PosInfinity = True"
| "js_lt _ _ = False"

definition js_gt :: "jsnum \<Rightarrow> jsnum \<Rightarrow> bool" where
  "js_gt a b = js_lt b a"

fun js_max2 :: "jsnum \<Rightarrow> jsnum \<Rightarrow> jsnum" where
  "js_max2 NaN b = NaN"
| "js_max2 a NaN = NaN"
| "js_max2 a b = (if js_lt a b then b else a)"

fun js_min2 :: "jsnum \<Rightarrow> jsnum \<Rightarrow> jsnum" where
  "js_min2 NaN b = NaN"
| "js_min2 a NaN = NaN"
| "js_min2 a b = (if js_lt b a then b else a)"

definition Math_max :: "jsnum list \<Rightarrow> jsnum" where
  "Math_max xs = fold (\<lambda>x acc. js_max2 acc x) xs NegInfinity"

definition Math_min :: "jsnum list \<Rightarrow> jsnum" where
  "Math_min xs = fold (\<lambda>x acc. js_min2 acc x) xs PosInfinity"

definition to_number :: "int option \<Rightarrow> jsnum" where
  "to_number x = (case x of None \<Rightarrow> NaN | Some v \<Rightarrow> Num v)"

text \<open>\<^verbatim>\<open>x || d\<close> on an index: \<^verbatim>\<open>undefined\<close> and \<^verbatim>\<open>0\<close> are falsy.\<close>

definition or_else :: "int option \<Rightarrow> jsnum \<Rightarrow> jsnum" where
  "or_else x d = (case x of None \<Rightarrow> d | Some v \<Rightarrow> if v = 0 then d else Num v)"

definition truthy_index :: "int option \<Rightarrow> bool" where
  "truthy_index x = (case x of None \<Rightarrow> False | Some v \<Rightarrow> v \<noteq> 0)"

text \<open>\<^verbatim>\<open>x === m\<close> for an index \<open>x\<close> and a number \<open>m\<close>.\<close>

definition strict_eq :: "int option \<Rightarrow> jsnum \<Rightarrow> bool" where
  "strict_eq x m = (case x of None \<Rightarrow> False | Some v \<Rightarrow> m = Num v)"

definition truthy_string :: "string option \<Rightarrow> bool" where
  "truthy_string x = (case x of None \<Rightarrow> False | Some v \<Rightarrow> v \<noteq> [])"

text \<open>A value inside a template literal.\<close>

definition interpolate :: "string option \<Rightarrow> string" where
  "interpolate x = (case x of None \<Rightarrow> ''undefined'' | Some v \<Rightarrow> v)"

text \<open>
  \<^verbatim>\<open>a < b\<close> on strings compares code units from the left; a proper prefix is smaller.
\<close>

fun js_str_lt :: "string \<Rightarrow> string \<Rightarrow> bool" where
  "js_str_lt [] [] = False"
| "js_str_lt [] (y # ys) = True"
| "js_str_lt (x # xs) [] = False"
| "js_str_lt (x # xs) (y # ys) =
     (if (of_char x :: nat) < of_char y then True
      else if (of_char y :: nat) < of_char x then False
      else js_str_lt xs ys)"

text \<open>\<^verbatim>\<open>a > b\<close> where either side may be \<^verbatim>\<open>undefined\<close> (then it is false).\<close>

definition js_str_gt_opt :: "string option \<Rightarrow> string option \<Rightarrow> bool" where
  "js_str_gt_opt a b =
     (case a of None \<Rightarrow> False
      | Some x \<Rightarrow> (case b of None \<Rightarrow> False | Some y \<Rightarrow> js_str_lt y x))"

definition startsWith :: "string \<Rightarrow> string \<Rightarrow> bool" where
  "startsWith s p = (take (length p) s = p)"

definition toUpperCase :: "char \<Rightarrow> char" where
  "toUpperCase c =
     (let n = (of_char c :: nat) in if 97 \<le> n \<and> n \<le> 122 then char_of (n - 32) else c)"

fun indexOf_from :: "'a list \<Rightarrow> 'a \<Rightarrow> int \<Rightarrow> int" where
  "indexOf_from [] x i = - 1"
| "indexOf_from (y # ys) x i = (if y = x then i else indexOf_from ys x (i + 1))"

definition indexOf :: "'a list \<Rightarrow> 'a \<Rightarrow> int" where
  "indexOf xs x = indexOf_from xs x 0"

fun findIndex_from :: "('a \<Rightarrow> bool) \<Rightarrow> 'a list \<Rightarrow> int \<Rightarrow> int" where
  "findIndex_from P [] i = - 1"
| "findIndex_from P (y # ys) i = (if P y then i else findIndex_from P ys (i + 1))"

definition findIndex :: "('a \<Rightarrow> bool) \<Rightarrow> 'a list \<Rightarrow> int" where
  "findIndex P xs = findIndex_from P xs 0"

text \<open>\<^verbatim>\<open>xs[i]\<close>: \<^verbatim>\<open>undefined\<close> outside the array.\<close>

definition nth_js :: "'a list \<Rightarrow> int \<Rightarrow> 'a option" where
  "nth_js xs i = (if 0 \<le> i \<and> nat i < length xs then Some (xs ! nat i) else None)"

text \<open>\<^verbatim>\<open>xs.splice(i, 0, x)\<close> for \<open>0 \<le> i\<close>: a start beyond the end is the end.\<close>

definition splice_in :: "'a list \<Rightarrow> int \<Rightarrow> 'a \<Rightarrow> 'a list" where
  "splice_in xs i x = take (nat i) xs @ [x] @ drop (nat i) xs"

text \<open>
  \<^verbatim>\<open>Array.prototype.sort\<close> with a comparator. Each element in turn moves left past
  the elements it compares below, the comparator being called with the later element
  first, as V8 calls it. With a consistent comparator this is the stable sort that every
  engine returns; ECMAScript leaves the result for other comparators to the engine.
  A comparator that returns a boolean is read as the number 1 or 0.
\<close>

fun insert_js :: "('a \<Rightarrow> 'a \<Rightarrow> int) \<Rightarrow> 'a \<Rightarrow> 'a list \<Rightarrow> 'a list" where
  "insert_js cmp x [] = [x]"
| "insert_js cmp x (y # ys) = (if cmp x y < 0 then y # insert_js cmp x ys else x # y # ys)"

definition js_sort :: "('a \<Rightarrow> 'a \<Rightarrow> int) \<Rightarrow> 'a list \<Rightarrow> 'a list" where
  "js_sort cmp xs = rev (fold (insert_js cmp) xs [])"

subsection \<open>Nodes\<close>

record Position =
  line :: int
  column :: int

record SourceLocation =
  loc_start :: Position
  loc_end :: Position

definition b_loc :: "int \<Rightarrow> int \<Rightarrow> int \<Rightarrow> int \<Rightarrow> SourceLocation" where
  "b_loc l1 c1 l2 c2 =
     \<lparr>loc_start = \<lparr>line = l1, column = c1\<rparr>, loc_end = \<lparr>line = l2, column = c2\<rparr>\<rparr>"

datatype NodeType =
  AttrNode | ElementModifierStatement | MustacheCommentStatement | CommentStatement | HashPair

text \<open>
  Modelled from the spec: the source-range accessor \<^verbatim>\<open>sourceForNode\<close> of the base
  class \<^verbatim>\<open>lib/rules/_base.js\<close>, which gives the source text of a parsed node and
  nothing for a node synthesized elsewhere. It is the field \<open>tk_source\<close> of a token,
  \<open>el_source\<close> of an element and \<open>mu_source\<close> of a mustache statement.

  A token is a node of the host tree with the fields the rule reads: \<^verbatim>\<open>type\<close>,
  \<^verbatim>\<open>name\<close> (attributes only), \<^verbatim>\<open>value\<close> (the text of a comment, the value of an
  attribute), \<^verbatim>\<open>path.original\<close> and the parameters and hash of a modifier,
  \<^verbatim>\<open>key\<close> (hash pairs) and \<^verbatim>\<open>loc\<close>. The formatting flags
  \<^verbatim>\<open>isValueless\<close> and \<^verbatim>\<open>quoteType\<close> take no part in any decision of the
  rule and are left out.
\<close>

record Token =
  tk_type :: NodeType
  tk_name :: "string option"
  tk_value :: string
  tk_path :: string
  tk_params :: string
  tk_key :: string
  tk_loc :: SourceLocation
  tk_source :: "string option"

record Element =
  tag :: string
  attributes :: "Token list"
  modifiers :: "Token list"
  comments :: "Token list"
  children :: "string list"
  blockParams :: "string list"
  selfClosing :: bool
  el_loc :: SourceLocation
  el_source :: "string option"


record Diagnostic =
  message :: string
  isFixable :: bool
  diag_node :: Token

text \<open>
  Modelled from the spec: the reporting collaborator \<^verbatim>\<open>this.log\<close> of the base class
  and the tree-mutation collaborator \<^verbatim>\<open>replace(node, parentNode, parentKey, newNode)\<close>
  of \<^verbatim>\<open>lib/helpers/replace-node.js\<close>. The first receives diagnostics
  \<^verbatim>\<open>{message, isFixable, node}\<close>, the second the new node that is to take the place
  of the visited one; the fields \<open>logged\<close> and \<open>replaced\<close> record what each was
  called with, in call order, the linkage being passed through as it came.

  The rule instance has its configuration and mode and the two fields
  \<^verbatim>\<open>appliedOrder\<close> and \<^verbatim>\<open>tokenGroups\<close>. \<^verbatim>\<open>tokenGroups\<close> is
  \<^verbatim>\<open>undefined\<close> until the first node is visited; both visitors assign it before
  anything reads it, so the model starts it with empty groups. A token group is the list
  of its items; its getters are functions of that list.
\<close>

record Rule =
  config :: Config
  mode :: string
  appliedOrder :: "TokenType list option"
  tokenGroups :: "TokenType \<Rightarrow> Token list"
  logged :: "Diagnostic list"
  replaced :: "Element list"

text \<open>
  Modelled from the spec: the node-construction collaborator, the builders of
  ember-template-recast, which build attribute tokens, modifier tokens, comments and
  whole elements from constituent parts, given explicit source ranges. A node built
  without a range has the builders' synthetic range, line 1 column 0, and no source text.
\<close>

definition SYNTHETIC_LOC :: SourceLocation where
  "SYNTHETIC_LOC = b_loc 1 0 1 0"

definition b_attr :: "string option \<Rightarrow> string \<Rightarrow> SourceLocation \<Rightarrow> Token" where
  "b_attr n v l =
     \<lparr>tk_type = AttrNode, tk_name = n, tk_value = v, tk_path = [], tk_params = [],
      tk_key = [], tk_loc = l, tk_source = None\<rparr>"

definition b_elementModifier :: "string \<Rightarrow> string \<Rightarrow> SourceLocation \<Rightarrow> Token" where
  "b_elementModifier p ps l =
     \<lparr>tk_type = ElementModifierStatement, tk_name = None, tk_value = [], tk_path = p,
      tk_params = ps, tk_key = [], tk_loc = l, tk_source = None\<rparr>"

definition b_mustacheComment :: "string \<Rightarrow> SourceLocation \<Rightarrow> Token" where
  "b_mustacheComment v l =
     \<lparr>tk_type = MustacheCommentStatement, tk_name = None, tk_value = v, tk_path = [],
      tk_params = [], tk_key = [], tk_loc = l, tk_source = None\<rparr>"

definition b_comment :: "string \<Rightarrow> SourceLocation \<Rightarrow> Token" where
  "b_comment v l =
     \<lparr>tk_type = CommentStatement, tk_name = None, tk_value = v, tk_path = [],
      tk_params = [], tk_key = [], tk_loc = l, tk_source = None\<rparr>"

definition b_element ::
  "string \<Rightarrow> Token list \<Rightarrow> Token list \<Rightarrow> string list \<Rightarrow> string list \<Rightarrow> Token list \<Rightarrow> Element"
where
  "b_element t attrs mods chs bps cms =
     \<lparr>tag = t, attributes = attrs, modifiers = mods, comments = cms, children = chs,
      blockParams = bps, selfClosing = False, el_loc = SYNTHETIC_LOC, el_source = None\<rparr>"

subsection \<open>Token groups\<close>

definition calculateAttributeIndex :: "Token \<Rightarrow> int" where
  "calculateAttributeIndex node =
     line (loc_start (tk_loc node)) * column (loc_start (tk_loc node))"

definition indexes :: "Token list \<Rightarrow> int list" where
  "indexes items = map calculateAttributeIndex items"

definition group_exists :: "Token list \<Rightarrow> bool" where
  "group_exists items = (0 < length items)"

definition lastIndex :: "Token list \<Rightarrow> int option" where
  "lastIndex items = (case indexes items of [] \<Rightarrow> None | x # xs \<Rightarrow> Some (fold max xs x))"

definition firstIndex :: "Token list \<Rightarrow> int option" where
  "firstIndex items = (case indexes items of [] \<Rightarrow> None | x # xs \<Rightarrow> Some (fold min xs x))"

text \<open>
  The second group of \<^verbatim>\<open>/([^A-Za-z]*)([\w-]*)/\<close>: the expression matches at the start
  of every string, its first group takes every leading character that is not a letter
  and its second the letters, digits, underscores and hyphens that follow.
\<close>

definition is_letter :: "char \<Rightarrow> bool" where
  "is_letter c =
     (let n = (of_char c :: nat) in (65 \<le> n \<and> n \<le> 90) \<or> (97 \<le> n \<and> n \<le> 122))"

definition is_word_or_hyphen :: "char \<Rightarrow> bool" where
  "is_word_or_hyphen c =
     (let n = (of_char c :: nat)
      in is_letter c \<or> (48 \<le> n \<and> n \<le> 57) \<or> n = 95 \<or> n = 45)"

definition match_alpha :: "string \<Rightarrow> string" where
  "match_alpha s = takeWhile is_word_or_hyphen (dropWhile (\<lambda>c. \<not> is_letter c) s)"

fun inversion_from :: "string \<Rightarrow> string list \<Rightarrow> int \<Rightarrow> int" where
  "inversion_from prev [] idx = - 1"
| "inversion_from prev (e # es) idx =
     (if js_str_lt e prev then idx else inversion_from e es (idx + 1))"

text \<open>
  \<^verbatim>\<open>unalphabetizedItemIndex\<close>: \<^verbatim>\<open>.match\<close> on the source text of every item, a
  \<^verbatim>\<open>TypeError\<close> where an item has none, then the first index after 0 whose text is
  smaller than the one before it, or -1.
\<close>

definition unalphabetizedItemIndex :: "Token list \<Rightarrow> int option" where
  "unalphabetizedItemIndex items =
     (case those (map tk_source items) of
        None \<Rightarrow> None
      | Some srcs \<Rightarrow>
          (case map match_alpha srcs of
             [] \<Rightarrow> Some (- 1)
           | a # as \<Rightarrow> Some (inversion_from a as 1)))"

subsection \<open>Classifying and grouping tokens\<close>

definition is_comment_type :: "NodeType \<Rightarrow> bool" where
  "is_comment_type ty = (ty = MustacheCommentStatement \<or> ty = CommentStatement)"

definition getTokenType :: "Token \<Rightarrow> TokenType" where
  "getTokenType node =
     (if is_comment_type (tk_type node) then COMMENTS
      else
        (case tk_name node of
           None \<Rightarrow> MODIFIERS
         | Some n \<Rightarrow>
             if n = [] then MODIFIERS
             else if startsWith n ''@'' then ARGUMENTS
             else if startsWith n ''...'' then SPLATTRIBUTES
             else ATTRIBUTES))"

definition getTokenCategory :: "TokenType \<Rightarrow> TokenType" where
  "getTokenCategory tokenType =
     (if tokenType \<in> set [ARGUMENTS, ATTRIBUTES, SPLATTRIBUTES] then ATTRIBUTES
      else tokenType)"


definition getElementNodeTokens :: "Element \<Rightarrow> (TokenType \<times> Token) list" where
  "getElementNodeTokens node =
     map (\<lambda>attr. (getTokenType attr, attr)) (attributes node)
     @ map (\<lambda>modifier. (MODIFIERS, modifier)) (modifiers node)
     @ map (\<lambda>comment. (COMMENTS, comment)) (comments node)"

definition groupTokens :: "(TokenType \<times> Token) list \<Rightarrow> (TokenType \<Rightarrow> Token list)" where
  "groupTokens tokens =
     fold (\<lambda>(tokenType, node) result. result(tokenType := result tokenType @ [node]))
       tokens (\<lambda>_. [])"

definition makeTokenGroups :: "Rule \<Rightarrow> (TokenType \<Rightarrow> Token list) \<Rightarrow> Rule" where
  "makeTokenGroups r tokens = r\<lparr>tokenGroups := tokens\<rparr>"

subsection \<open>The applied order\<close>

definition areSplattributesSurrounded :: "Rule \<Rightarrow> bool" where
  "areSplattributesSurrounded r =
     (let splattributeLastIndex = lastIndex (tokenGroups r SPLATTRIBUTES)
      in if js_lt (to_number splattributeLastIndex) (Num 0) then False
         else
           (let maxIndex = Math_max
                  (map (\<lambda>t. or_else (lastIndex (tokenGroups r t)) NegInfinity) token_types);
                minIndex = Math_min
                  (map (\<lambda>t. or_else (firstIndex (tokenGroups r t)) PosInfinity) token_types)
            in js_gt (to_number splattributeLastIndex) minIndex
               \<and> js_lt (to_number splattributeLastIndex) maxIndex))"

text \<open>
  The last indexes that pass \<^verbatim>\<open>Number.isInteger\<close>: those of the groups that have
  items.
\<close>

definition integer_lastIndexes :: "Rule \<Rightarrow> int list" where
  "integer_lastIndexes r = List.map_filter (\<lambda>t. lastIndex (tokenGroups r t)) token_types"

definition computeAppliedOrder :: "Rule \<Rightarrow> TokenType list" where
  "computeAppliedOrder r =
     (let maxLastIndex = Math_max (map Num (integer_lastIndexes r));
          minLastIndex = Math_min (map Num (integer_lastIndexes r));
          orderMinusSplattributes =
            filter (\<lambda>attribute. attribute \<noteq> SPLATTRIBUTES) (order (config r));
          splattributeLastIndex = lastIndex (tokenGroups r SPLATTRIBUTES);
          attributeLastIndex = lastIndex (tokenGroups r ATTRIBUTES)
      in if strict_eq splattributeLastIndex maxLastIndex
            \<or> (truthy_index splattributeLastIndex
                \<and> js_gt (to_number splattributeLastIndex) (to_number attributeLastIndex))
         then orderMinusSplattributes @ [SPLATTRIBUTES]
         else if strict_eq splattributeLastIndex minLastIndex
            \<or> (truthy_index splattributeLastIndex
                \<and> js_lt (to_number splattributeLastIndex) (to_number attributeLastIndex))
         then SPLATTRIBUTES # orderMinusSplattributes
         else orderMinusSplattributes @ [SPLATTRIBUTES])"

text \<open>
  \<^verbatim>\<open>getAppliedOrder\<close> returns the field \<^verbatim>\<open>appliedOrder\<close> when it is set (an array
  is truthy) and otherwise computes the order and stores it in the field. Nothing in the
  class assigns the field anywhere else.
\<close>

definition getAppliedOrder :: "Rule \<Rightarrow> TokenType list \<times> Rule" where
  "getAppliedOrder r =
     (case appliedOrder r of
        Some ao \<Rightarrow> (ao, r)
      | None \<Rightarrow> (computeAppliedOrder r, r\<lparr>appliedOrder := Some (computeAppliedOrder r)\<rparr>))"

definition getOrder :: "Rule \<Rightarrow> TokenType \<Rightarrow> int \<times> Rule" where
  "getOrder r tokenType =
     (indexOf (fst (getAppliedOrder r)) tokenType, snd (getAppliedOrder r))"

subsection \<open>Finding tokens\<close>

text \<open>
  \<^verbatim>\<open>getNode\<close> is only called with a comment: the first token of the groups with
  the comment's type and either its (truthy) name or its text.
\<close>

definition getNode :: "Rule \<Rightarrow> Token \<Rightarrow> Token option" where
  "getNode r c =
     List.find
       (\<lambda>node. tk_type node = tk_type c
          \<and> ((truthy_string (tk_name node) \<and> tk_name node = tk_name c)
              \<or> tk_value node = tk_value c))
       (concat (map (tokenGroups r) token_types))"

definition getAllIndexes :: "Rule \<Rightarrow> int list" where
  "getAllIndexes r =
     js_sort (\<lambda>a b. a - b) (concat (map (\<lambda>t. indexes (tokenGroups r t)) token_types))"

definition findUnalphabetizedToken :: "Token list \<Rightarrow> Token option option" where
  "findUnalphabetizedToken items =
     (case unalphabetizedItemIndex items of
        None \<Rightarrow> None
      | Some i \<Rightarrow> Some (nth_js items i))"

definition findUnorderedToken :: "Token list \<Rightarrow> Token option" where
  "findUnorderedToken items =
     List.find (\<lambda>item. Some (calculateAttributeIndex item) = lastIndex items) items"

subsection \<open>Messages\<close>

text \<open>
  \<^verbatim>\<open>string[0].toUpperCase() + string.slice(1, -1)\<close>; the empty string has no
  \<^verbatim>\<open>string[0]\<close>.
\<close>

definition capitalizedAttribute :: "string \<Rightarrow> string option" where
  "capitalizedAttribute s =
     (case s of [] \<Rightarrow> None | c # cs \<Rightarrow> Some (toUpperCase c # butlast cs))"

definition createNotAlphabetizedErrorMessage :: "TokenType \<Rightarrow> string option \<Rightarrow> string option"
where
  "createNotAlphabetizedErrorMessage tokenType src =
     (case capitalizedAttribute (type_name tokenType) of
        None \<Rightarrow> None
      | Some c \<Rightarrow> Some (c @ '' '' @ interpolate src @ '' is not alphabetized''))"

definition name_at :: "TokenType list \<Rightarrow> int \<Rightarrow> string" where
  "name_at xs i = interpolate (map_option type_name (nth_js xs i))"

definition createUnorderedErrorMessage ::
  "Rule \<Rightarrow> TokenType \<Rightarrow> string option \<Rightarrow> (string \<times> Rule) option"
where
  "createUnorderedErrorMessage r tokenType src =
     (let ord = fst (getOrder r tokenType);
          r' = snd (getOrder r tokenType);
          ao = fst (getAppliedOrder r')
      in case capitalizedAttribute (type_name tokenType) of
           None \<Rightarrow> None
         | Some c \<Rightarrow>
             if ord = 0 then
               Some (c @ '' '' @ interpolate src @ '' must go before ''
                       @ name_at ao 1 @ '' and '' @ name_at ao 2, r')
             else if ord = 1 then
               Some (c @ '' '' @ interpolate src @ '' must go after ''
                       @ name_at (order (config r')) (ord - 1), r')
             else
               Some (c @ '' '' @ interpolate src @ '' must go after ''
                       @ name_at ao (ord - 1), r'))"

subsection \<open>The order violation\<close>

text \<open>
  \<^verbatim>\<open>this.tokenGroups[this.getAppliedOrder()[k]].firstIndex\<close>: a \<^verbatim>\<open>TypeError\<close>
  when the applied order has no entry \<open>k\<close>.
\<close>

definition firstIndex_at :: "Rule \<Rightarrow> int \<Rightarrow> int option option" where
  "firstIndex_at r k =
     map_option (\<lambda>t. firstIndex (tokenGroups r t)) (nth_js (fst (getAppliedOrder r)) k)"

definition lastIndex_at :: "Rule \<Rightarrow> int \<Rightarrow> int option option" where
  "lastIndex_at r k =
     map_option (\<lambda>t. lastIndex (tokenGroups r t)) (nth_js (fst (getAppliedOrder r)) k)"

definition index_gt :: "int option \<Rightarrow> int option \<Rightarrow> bool" where
  "index_gt a b = js_gt (to_number a) (to_number b)"

definition index_lt :: "int option \<Rightarrow> int option \<Rightarrow> bool" where
  "index_lt a b = js_lt (to_number a) (to_number b)"

text \<open>
  \<^verbatim>\<open>isAttributeUnordered\<close>. The operands of \<^verbatim>\<open>||\<close> are read from left to right
  and only as far as needed. A rank outside 0 to 3 returns \<^verbatim>\<open>undefined\<close>, which the
  only caller reads as false.
\<close>

definition isAttributeUnordered :: "Rule \<Rightarrow> TokenType \<Rightarrow> (bool \<times> Rule) option" where
  "isAttributeUnordered r tokenType =
     (let ord = fst (getOrder r tokenType);
          r' = snd (getOrder r tokenType);
          l = lastIndex (tokenGroups r' tokenType)
      in if group_exists (tokenGroups r' tokenType) then
           (if areSplattributesSurrounded r' then Some (False, r')
            else if ord = 0 then
              do {
                f1 \<leftarrow> firstIndex_at r' 1;
                if index_gt l f1 then Some (True, r')
                else do {
                  f2 \<leftarrow> firstIndex_at r' 2;
                  if index_gt l f2 then Some (True, r')
                  else do {
                    f3 \<leftarrow> firstIndex_at r' 3;
                    Some (index_gt l f3, r')
                  }
                }
              }
            else if ord = 1 then
              do {
                f0 \<leftarrow> firstIndex_at r' 0;
                if index_lt l f0 then Some (True, r')
                else do {
                  f2 \<leftarrow> firstIndex_at r' 2;
                  Some (index_gt l f2, r')
                }
              }
            else if ord = 2 then
              do {
                l1 \<leftarrow> lastIndex_at r' 1;
                if index_lt l l1 then Some (True, r')
                else do {
                  l3 \<leftarrow> lastIndex_at r' 3;
                  Some (index_gt l l3, r')
                }
              }
            else if ord = 3 then
              do {
                l2 \<leftarrow> lastIndex_at r' 2;
                Some (index_lt l l2, r')
              }
            else Some (False, r'))
         else Some (False, r'))"

subsection \<open>Rebuilding a node\<close>

definition makeToken :: "TokenType \<Rightarrow> Token \<Rightarrow> SourceLocation \<Rightarrow> Token" where
  "makeToken nodeType node loc =
     (case nodeType of
        MODIFIERS \<Rightarrow> b_elementModifier (tk_path node) (tk_params node) loc
      | COMMENTS \<Rightarrow>
          (if tk_type node = MustacheCommentStatement then b_mustacheComment (tk_value node) loc
           else b_comment (tk_value node) loc)
      | _ \<Rightarrow> b_attr (tk_name node) (tk_value node) loc)"

text \<open>
  The accumulator of the \<^verbatim>\<open>reduce\<close> in \<^verbatim>\<open>replaceNode\<close>: the cursor, which
  starts \<^verbatim>\<open>undefined\<close>, and one array per category, empty until its first push.
\<close>

record Acc =
  cursor :: "int option"
  acc_tokens :: "TokenType \<Rightarrow> Token list"

definition replace_step :: "Element \<Rightarrow> Token \<Rightarrow> Acc \<Rightarrow> Acc" where
  "replace_step node currAttr acc =
     (let minColumn = int (length (tag node)) + 2;
          nodeType = getTokenCategory (getTokenType currAttr);
          ln = line (loc_start (el_loc node));
          startColumn =
            (case cursor acc of None \<Rightarrow> minColumn | Some c \<Rightarrow> if c = 0 then minColumn else c);
          endColumn = startColumn + column (loc_end (tk_loc currAttr))
                        - column (loc_start (tk_loc currAttr));
          loc = b_loc ln startColumn ln endColumn;
          newAttribute = makeToken nodeType currAttr loc
      in \<lparr>cursor = Some (endColumn + 2),
          acc_tokens = (acc_tokens acc)(nodeType := acc_tokens acc nodeType @ [newAttribute])\<rparr>)"

text \<open>
  \<^verbatim>\<open>replaceNode\<close> builds the new element, \<open>newNode_of\<close>, and hands it to the helper
  of the same name, recorded in \<open>replaced\<close>.
\<close>

definition newNode_of :: "Element \<Rightarrow> Token list \<Rightarrow> Element" where
  "newNode_of node sortedTokens =
     (let acc = fold (replace_step node) sortedTokens
                  \<lparr>cursor = None, acc_tokens = (\<lambda>_. [])\<rparr>
      in (b_element (tag node) (acc_tokens acc ATTRIBUTES) (acc_tokens acc MODIFIERS)
            (children node) (blockParams node) (acc_tokens acc COMMENTS))
         \<lparr>selfClosing := selfClosing node\<rparr>)"

definition replaceNode :: "Rule \<Rightarrow> Element \<Rightarrow> Token list \<Rightarrow> Rule" where
  "replaceNode r node sortedTokens =
     r\<lparr>replaced := replaced r @ [newNode_of node sortedTokens]\<rparr>"

subsection \<open>Putting the comments back\<close>

text \<open>
  The body of the \<^verbatim>\<open>while\<close> loop of \<^verbatim>\<open>orderComment\<close>, once for each comment
  shifted off the array. \<^verbatim>\<open>this.getAllIndexes.length\<close> is the number of parameters of
  the method, 0. A comment that \<^verbatim>\<open>getNode\<close> does not find gives a
  \<^verbatim>\<open>TypeError\<close> in \<^verbatim>\<open>calculateAttributeIndex\<close>.
\<close>

fun orderComment_loop :: "Rule \<Rightarrow> Token list \<Rightarrow> Token list \<Rightarrow> Token list option" where
  "orderComment_loop r [] sortedTokens = Some sortedTokens"
| "orderComment_loop r (comment # reverseComments) sortedTokens =
     (case getNode r comment of
        None \<Rightarrow> None
      | Some token \<Rightarrow>
          (let fromOrder = indexOf (getAllIndexes r) (calculateAttributeIndex token);
               indexOfNext = nth_js (getAllIndexes r) (fromOrder + 1);
               toPosInSorted =
                 (if fromOrder = 0 - 1 then fromOrder
                  else findIndex
                         (\<lambda>node. truthy_index indexOfNext
                            \<and> Some (calculateAttributeIndex node) = indexOfNext)
                         sortedTokens)
           in if toPosInSorted < 0 then orderComment_loop r reverseComments sortedTokens
              else orderComment_loop r reverseComments (splice_in sortedTokens toPosInSorted token)))"

text \<open>
  \<^verbatim>\<open>orderComment\<close> sorts \<^verbatim>\<open>node.comments\<close> in place, last comment first, and
  shifts every comment off it: the node's array is empty when the method returns.
\<close>

definition orderComment :: "Rule \<Rightarrow> Element \<Rightarrow> Token list \<Rightarrow> (Token list \<times> Element) option" where
  "orderComment r node sortedTokens =
     (let reverseComments =
            js_sort (\<lambda>a b. calculateAttributeIndex b - calculateAttributeIndex a) (comments node)
      in map_option (\<lambda>sortedTokens'. (sortedTokens', node\<lparr>comments := []\<rparr>))
           (orderComment_loop r reverseComments sortedTokens))"

subsection \<open>The two fixes\<close>

definition log_diagnostic :: "Rule \<Rightarrow> Diagnostic \<Rightarrow> Rule" where
  "log_diagnostic r d = r\<lparr>logged := logged r @ [d]\<rparr>"

text \<open>
  The comparators. The first reads the rank of the spread through \<^verbatim>\<open>getOrder\<close>; the
  field that this call may set is set to the same value by \<^verbatim>\<open>isAttributeUnordered\<close>
  right after \<^verbatim>\<open>alphabetizeAttribute\<close> returns, before anything reads it, so the
  comparator is a function of the applied order.
\<close>

definition compare_names :: "TokenType list \<Rightarrow> Token \<Rightarrow> Token \<Rightarrow> int" where
  "compare_names ao a b =
     (if tk_name a = Some ''...attributes'' then
        (if indexOf ao SPLATTRIBUTES = 3 then 1 else - 1)
      else if js_str_gt_opt (tk_name a) (tk_name b) then 1
      else - 1)"

definition compare_paths :: "Token \<Rightarrow> Token \<Rightarrow> int" where
  "compare_paths a b = (if js_str_lt (tk_path b) (tk_path a) then 1 else - 1)"

definition compare_ranks :: "TokenType list \<Rightarrow> Token \<Rightarrow> Token \<Rightarrow> int" where
  "compare_ranks ao a b =
     (let orderA = indexOf ao (getTokenType a);
          orderB = indexOf ao (getTokenType b)
      in if orderA = orderB then
           (if calculateAttributeIndex a > calculateAttributeIndex b then 1 else 0)
         else if orderA > orderB then 1
         else - 1)"


definition alphabetizeAttribute ::
  "Rule \<Rightarrow> Element \<Rightarrow> TokenType \<Rightarrow> (Rule \<times> Element) option"
where
  "alphabetizeAttribute r node tokenType =
     (case findUnalphabetizedToken (tokenGroups r tokenType) of
        None \<Rightarrow> None
      | Some None \<Rightarrow> Some (r, node)
      | Some (Some item) \<Rightarrow>
          if mode r = ''fix'' then
            (let node1 = node\<lparr>attributes :=
                           js_sort (compare_names (fst (getAppliedOrder r))) (attributes node)\<rparr>;
                 attrs = map (\<lambda>attr. b_attr (tk_name attr) (tk_value attr) SYNTHETIC_LOC)
                           (attributes node1);
                 node2 = node1\<lparr>modifiers := js_sort compare_paths (modifiers node1)\<rparr>;
                 mods = map (\<lambda>m. b_elementModifier (tk_path m) (tk_params m) SYNTHETIC_LOC)
                           (modifiers node2);
                 newNode = (b_element (tag node2) attrs mods (children node2)
                              (blockParams node2) (comments node2))
                           \<lparr>selfClosing := selfClosing node2\<rparr>;
                 cms = comments node2;
                 sortedTokens = attributes newNode @ modifiers newNode @ cms;
                 r1 = replaceNode r node2 sortedTokens
             in if 0 < length cms then
                  (case orderComment r1 node2 sortedTokens of
                     None \<Rightarrow> None
                   | Some (sortedTokens', node3) \<Rightarrow> Some (replaceNode r1 node3 sortedTokens', node3))
                else Some (replaceNode r1 node2 sortedTokens, node2))
          else
            (case createNotAlphabetizedErrorMessage tokenType (tk_source item) of
               None \<Rightarrow> None
             | Some msg \<Rightarrow>
                 Some (log_diagnostic r \<lparr>message = msg, isFixable = True, diag_node = item\<rparr>,
                       node)))"

text \<open>
  In \<^verbatim>\<open>orderAttribute\<close> the token that \<^verbatim>\<open>findUnorderedToken\<close> returns is read
  only to report; the host's \<^verbatim>\<open>sourceForNode\<close> fails on \<^verbatim>\<open>undefined\<close>.
\<close>

definition orderAttribute ::
  "Rule \<Rightarrow> Element \<Rightarrow> TokenType \<Rightarrow> (Rule \<times> Element) option"
where
  "orderAttribute r node tokenType =
     (if mode r = ''fix'' then
        (let sortedTokens = js_sort (compare_ranks (fst (getAppliedOrder r)))
                        (attributes node @ modifiers node)
         in if 0 < length (comments node) then
              (case orderComment r node sortedTokens of
                 None \<Rightarrow> None
               | Some (sortedTokens', node') \<Rightarrow> Some (replaceNode r node' sortedTokens', node'))
            else Some (replaceNode r node sortedTokens, node))
      else
        (case findUnorderedToken (tokenGroups r tokenType) of
           None \<Rightarrow> None
         | Some item \<Rightarrow>
             (case createUnorderedErrorMessage r tokenType (tk_source item) of
                None \<Rightarrow> None
              | Some (msg, r') \<Rightarrow>
                  Some (log_diagnostic r' \<lparr>message = msg, isFixable = True, diag_node = item\<rparr>,
                        node))))"

subsection \<open>The two visitors\<close>

text \<open>
  \<^verbatim>\<open>Object.values(this.tokenGroups).some(...)\<close> over the groups in the order of
  their keys, stopping at the first group other than the comments with an unalphabetized
  token.
\<close>

fun some_unalphabetized :: "Rule \<Rightarrow> TokenType list \<Rightarrow> bool option" where
  "some_unalphabetized r [] = Some False"
| "some_unalphabetized r (t # ts) =
     (if t = COMMENTS then some_unalphabetized r ts
      else
        (case findUnalphabetizedToken (tokenGroups r t) of
           None \<Rightarrow> None
         | Some None \<Rightarrow> some_unalphabetized r ts
         | Some (Some item) \<Rightarrow> Some True))"

text \<open>The body of the loop of \<^verbatim>\<open>checkElementAttributesOrder\<close>, for each category.\<close>

fun check_categories ::
  "Rule \<Rightarrow> Element \<Rightarrow> TokenType list \<Rightarrow> (Rule \<times> Element) option"
where
  "check_categories r node [] = Some (r, node)"
| "check_categories r node (tokenType # rest) =
     (case some_unalphabetized r token_types of
        None \<Rightarrow> None
      | Some isAttributeUnalphabetized \<Rightarrow>
          (case (if alphabetize (config r) \<and> isAttributeUnalphabetized
                    \<and> \<not> areSplattributesSurrounded r
                 then alphabetizeAttribute r node tokenType
                 else Some (r, node)) of
             None \<Rightarrow> None
           | Some (r1, node1) \<Rightarrow>
               (case isAttributeUnordered r1 tokenType of
                  None \<Rightarrow> None
                | Some (unordered, r2) \<Rightarrow>
                    (case (if unordered then orderAttribute r2 node1 tokenType
                           else Some (r2, node1)) of
                       None \<Rightarrow> None
                     | Some (r3, node3) \<Rightarrow> check_categories r3 node3 rest))))"

definition checkElementAttributesOrder :: "Rule \<Rightarrow> Element \<Rightarrow> (Rule \<times> Element) option" where
  "checkElementAttributesOrder r node =
     (if truthy_string (el_source node) then
        check_categories
          (makeTokenGroups r (groupTokens (getElementNodeTokens node)))
          node (order (config r))
      else Some (r, node))"


subsection \<open>The claims in the words of the specification\<close>

text \<open>
  The sandwiching exception as the specification words it: the spread exists and its last
  position lies strictly between the smallest first position and the largest last
  position over all categories, that is, between the smallest and the largest position
  of any token of the node.
\<close>

definition all_positions :: "Rule \<Rightarrow> int list" where
  "all_positions r = concat (map (\<lambda>t. indexes (tokenGroups r t)) token_types)"

definition spec_sandwiched :: "Rule \<Rightarrow> bool" where
  "spec_sandwiched r =
     (case lastIndex (tokenGroups r SPLATTRIBUTES) of
        None \<Rightarrow> False
      | Some s \<Rightarrow>
          (case all_positions r of
             [] \<Rightarrow> False
           | p # ps \<Rightarrow> fold min ps p < s \<and> s < fold max ps p))"

text \<open>
  The applied order as section 4.3 of the specification words it, with \<open>s\<close> and \<open>a\<close>
  the last positions of the spread and of the attributes, and the largest and smallest
  last position over the categories that have tokens.
\<close>

definition spec_appliedOrder :: "Rule \<Rightarrow> TokenType list" where
  "spec_appliedOrder r =
     (let s = lastIndex (tokenGroups r SPLATTRIBUTES);
          a = lastIndex (tokenGroups r ATTRIBUTES);
          lasts = integer_lastIndexes r;
          configured = filter (\<lambda>c. c \<noteq> SPLATTRIBUTES) (order (config r))
      in case s of
           None \<Rightarrow> configured @ [SPLATTRIBUTES]
         | Some sv \<Rightarrow>
             if sv = fold max lasts sv \<or> (case a of None \<Rightarrow> False | Some av \<Rightarrow> av < sv)
             then configured @ [SPLATTRIBUTES]
             else if sv = fold min lasts sv \<or> (case a of None \<Rightarrow> False | Some av \<Rightarrow> sv < av)
             then SPLATTRIBUTES # configured
             else configured @ [SPLATTRIBUTES])"



subsection \<open>Nodes as the parser hands them over\<close>

text \<open>
  A parsed token lies on one line, from its column to the column after its source text.
\<close>

definition parsed_loc :: "int \<Rightarrow> int \<Rightarrow> string \<Rightarrow> SourceLocation" where
  "parsed_loc l c src = b_loc l c l (c + int (length src))"

definition parsed_attr :: "string \<Rightarrow> string \<Rightarrow> int \<Rightarrow> int \<Rightarrow> string \<Rightarrow> Token" where
  "parsed_attr n v l c src =
     \<lparr>tk_type = AttrNode, tk_name = Some n, tk_value = v, tk_path = [], tk_params = [],
      tk_key = [], tk_loc = parsed_loc l c src, tk_source = Some src\<rparr>"

definition parsed_modifier :: "string \<Rightarrow> string \<Rightarrow> int \<Rightarrow> int \<Rightarrow> string \<Rightarrow> Token" where
  "parsed_modifier p ps l c src =
     \<lparr>tk_type = ElementModifierStatement, tk_name = None, tk_value = [], tk_path = p,
      tk_params = ps, tk_key = [], tk_loc = parsed_loc l c src, tk_source = Some src\<rparr>"

definition parsed_comment :: "string \<Rightarrow> int \<Rightarrow> int \<Rightarrow> string \<Rightarrow> Token" where
  "parsed_comment v l c src =
     \<lparr>tk_type = MustacheCommentStatement, tk_name = None, tk_value = v, tk_path = [],
      tk_params = [], tk_key = [], tk_loc = parsed_loc l c src, tk_source = Some src\<rparr>"


definition parsed_element ::
  "string \<Rightarrow> Token list \<Rightarrow> Token list \<Rightarrow> Token list \<Rightarrow> string \<Rightarrow> Element"
where
  "parsed_element t attrs mods cms src =
     \<lparr>tag = t, attributes = attrs, modifiers = mods, comments = cms, children = [],
      blockParams = [], selfClosing = False, el_loc = parsed_loc 1 0 src,
      el_source = Some src\<rparr>"

definition new_rule :: "Config \<Rightarrow> string \<Rightarrow> Rule" where
  "new_rule c m =
     \<lparr>config = c, mode = m, appliedOrder = None, tokenGroups = (\<lambda>_. []), logged = [],
      replaced = []\<rparr>"

definition grouped :: "Rule \<Rightarrow> Element \<Rightarrow> Rule" where
  "grouped r node = makeTokenGroups r (groupTokens (getElementNodeTokens node))"


text \<open>
  An element over two lines, the second starting at column 0:
  \<^verbatim>\<open><div\<close> and then \<^verbatim>\<open>b="1" ...attributes a="2"></div>\<close>.
\<close>

definition spread_between_div :: Element where
  "spread_between_div =
     (parsed_element ''div''
        [parsed_attr ''b'' ''1'' 2 0 ''b=\"1\"'',
         parsed_attr ''...attributes'' [] 2 6 ''...attributes'',
         parsed_attr ''a'' ''2'' 2 20 ''a=\"2\"'']
        [] [] (''<div'' @ [CHR 0x0A] @ ''b=\"1\" ...attributes a=\"2\"></div>''))
     \<lparr>el_loc := b_loc 1 0 2 32\<rparr>"

text \<open>
  \<^verbatim>\<open><div {{on "click" this.f}} @a="1" {{! note }}></div>\<close>
\<close>

definition trailing_comment_div :: Element where
  "trailing_comment_div =
     parsed_element ''div''
       [parsed_attr ''@a'' ''1'' 1 27 ''@a=\"1\"'']
       [parsed_modifier ''on'' ''\"click\" this.f'' 1 5 ''{{on \"click\" this.f}}'']
       [parsed_comment '' note '' 1 34 ''{{! note }}'']
       ''<div {{on \"click\" this.f}} @a=\"1\" {{! note }}></div>''"

text \<open>
  \<^verbatim>\<open><div ...attributes class="x"></div>\<close> and \<^verbatim>\<open><Foo @a="1" ...attributes />\<close>
\<close>

definition spread_first_div :: Element where
  "spread_first_div =
     parsed_element ''div''
       [parsed_attr ''...attributes'' [] 1 5 ''...attributes'',
        parsed_attr ''class'' ''x'' 1 19 ''class=\"x\"'']
       [] [] ''<div ...attributes class=\"x\"></div>''"

definition spread_last_Foo :: Element where
  "spread_last_Foo =
     parsed_element ''Foo''
       [parsed_attr ''@a'' ''1'' 1 5 ''@a=\"1\"'',
        parsed_attr ''...attributes'' [] 1 12 ''...attributes'']
       [] [] ''<Foo @a=\"1\" ...attributes />''"


text \<open>
  \<^verbatim>\<open><div _b="2" a="1"></div>\<close>
\<close>

definition underscore_div :: Element where
  "underscore_div =
     parsed_element ''div''
       [parsed_attr ''_b'' ''2'' 1 5 ''_b=\"2\"'', parsed_attr ''a'' ''1'' 1 12 ''a=\"1\"'']
       [] [] ''<div _b=\"2\" a=\"1\"></div>''"


section \<open>Properties\<close>

subsection \<open>Facts about the helpers\<close>

lemma getAppliedOrder_tokenGroups [simp]:
  "tokenGroups (snd (getAppliedOrder r)) = tokenGroups r"
  by (simp add: getAppliedOrder_def split: option.splits)

lemma getAppliedOrder_again [simp]:
  "fst (getAppliedOrder (snd (getAppliedOrder r))) = fst (getAppliedOrder r)"
  by (simp add: getAppliedOrder_def split: option.splits)

lemma surrounded_cong:
  "tokenGroups r' = tokenGroups r \<Longrightarrow>
   areSplattributesSurrounded r' = areSplattributesSurrounded r"
  by (simp add: areSplattributesSurrounded_def)

lemma token_types_all: "t \<in> set token_types"
  by (cases t) (simp_all add: token_types_def)

lemma set_map_filter_iff:
  "v \<in> set (List.map_filter f xs) \<longleftrightarrow> (\<exists>x \<in> set xs. f x = Some v)"
  by (induction xs) (auto split: option.splits)


subsection \<open>What a check leaves alone\<close>





lemma replaceNode_fields [simp]:
  "replaced (replaceNode r node s) = replaced r @ [newNode_of node s]"
  "mode (replaceNode r node s) = mode r"
  by (simp_all add: replaceNode_def)








lemma getAppliedOrder_fields [simp]:
  "mode (snd (getAppliedOrder r)) = mode r"
  "replaced (snd (getAppliedOrder r)) = replaced r"
  "logged (snd (getAppliedOrder r)) = logged r"
  "config (snd (getAppliedOrder r)) = config r"
  by (simp_all add: getAppliedOrder_def split: option.splits)





subsection \<open>The sandwiching exception\<close>

text \<open>
  The extremes that \<^verbatim>\<open>areSplattributesSurrounded\<close> computes are those of the
  specification as long as no token has position 0.
\<close>

lemma fold_max_Max: "fold max xs (x::int) = Max (set (x # xs))"
  by (simp add: Max.set_eq_fold del: set_simps)

lemma fold_min_Min: "fold min xs (x::int) = Min (set (x # xs))"
  by (simp add: Min.set_eq_fold del: set_simps)

lemma lastIndex_Some_iff:
  "lastIndex items = Some v \<longleftrightarrow> items \<noteq> [] \<and> v = Max (set (indexes items))"
  by (cases "indexes items")
     (auto simp: lastIndex_def fold_max_Max indexes_def simp del: set_simps)

lemma firstIndex_Some_iff:
  "firstIndex items = Some v \<longleftrightarrow> items \<noteq> [] \<and> v = Min (set (indexes items))"
  by (cases "indexes items")
     (auto simp: firstIndex_def fold_min_Min indexes_def simp del: set_simps)

lemma fold_js_max2_or_else:
  assumes "\<And>v. Some v \<in> set os \<Longrightarrow> v \<noteq> 0"
  shows "fold (\<lambda>x acc. js_max2 acc x) (map (\<lambda>o'. or_else o' NegInfinity) os) (Num a)
         = Num (fold max (List.map_filter (\<lambda>x. x) os) a)"
  using assms
proof (induction os arbitrary: a)
  case Nil
  then show ?case by simp
next
  case (Cons o' os)
  then show ?case
    by (cases o') (auto simp: or_else_def max_def)
qed

lemma Math_max_or_else:
  assumes "\<And>v. Some v \<in> set os \<Longrightarrow> v \<noteq> 0"
  shows "Math_max (map (\<lambda>o'. or_else o' NegInfinity) os)
         = (case List.map_filter (\<lambda>x. x) os of
              [] \<Rightarrow> NegInfinity | y # ys \<Rightarrow> Num (Max (set (y # ys))))"
  using assms
proof (induction os)
  case Nil
  then show ?case by (simp add: Math_max_def)
next
  case (Cons o' os)
  show ?case
  proof (cases o')
    case None
    with Cons show ?thesis by (simp add: Math_max_def or_else_def)
  next
    case (Some v)
    have "v \<noteq> 0" using Cons.prems Some by simp
    moreover have "\<And>v. Some v \<in> set os \<Longrightarrow> v \<noteq> 0" using Cons.prems by simp
    ultimately show ?thesis
      using Some fold_js_max2_or_else [of os v]
      by (simp add: Math_max_def or_else_def fold_max_Max del: set_simps)
  qed
qed

lemma fold_js_min2_or_else:
  assumes "\<And>v. Some v \<in> set os \<Longrightarrow> v \<noteq> 0"
  shows "fold (\<lambda>x acc. js_min2 acc x) (map (\<lambda>o'. or_else o' PosInfinity) os) (Num a)
         = Num (fold min (List.map_filter (\<lambda>x. x) os) a)"
  using assms
proof (induction os arbitrary: a)
  case Nil
  then show ?case by simp
next
  case (Cons o' os)
  then show ?case
    by (cases o') (auto simp: or_else_def min_def)
qed

lemma Math_min_or_else:
  assumes "\<And>v. Some v \<in> set os \<Longrightarrow> v \<noteq> 0"
  shows "Math_min (map (\<lambda>o'. or_else o' PosInfinity) os)
         = (case List.map_filter (\<lambda>x. x) os of
              [] \<Rightarrow> PosInfinity | y # ys \<Rightarrow> Num (Min (set (y # ys))))"
  using assms
proof (induction os)
  case Nil
  then show ?case by (simp add: Math_min_def)
next
  case (Cons o' os)
  show ?case
  proof (cases o')
    case None
    with Cons show ?thesis by (simp add: Math_min_def or_else_def)
  next
    case (Some v)
    have "v \<noteq> 0" using Cons.prems Some by simp
    moreover have "\<And>v. Some v \<in> set os \<Longrightarrow> v \<noteq> 0" using Cons.prems by simp
    ultimately show ?thesis
      using Some fold_js_min2_or_else [of os v]
      by (simp add: Math_min_def or_else_def fold_min_Min del: set_simps)
  qed
qed

text \<open>The extremes over the groups are the extremes over all positions.\<close>

lemma set_map_filter_groups:
  "set (List.map_filter (\<lambda>x. x) (map f token_types)) = {v. \<exists>t. f t = Some v}"
proof (intro set_eqI iffI)
  fix v assume "v \<in> set (List.map_filter (\<lambda>x. x) (map f token_types))"
  then obtain t where "f t = Some v"
    unfolding set_map_filter_iff by auto
  then show "v \<in> {v. \<exists>t. f t = Some v}" by blast
next
  fix v assume "v \<in> {v. \<exists>t. f t = Some v}"
  then obtain t where "f t = Some v" by blast
  then have "\<exists>x \<in> set (map f token_types). x = Some v"
    using token_types_all [of t] by force
  then show "v \<in> set (List.map_filter (\<lambda>x. x) (map f token_types))"
    unfolding set_map_filter_iff .
qed

lemma Math_max_groups:
  assumes nz: "\<And>t v. f t = Some v \<Longrightarrow> v \<noteq> 0" and ne: "f t0 = Some v0"
  shows "Math_max (map (\<lambda>t. or_else (f t) NegInfinity) token_types)
         = Num (Max {v. \<exists>t. f t = Some v})"
proof -
  let ?os = "map f token_types"
  have z: "\<And>v. Some v \<in> set ?os \<Longrightarrow> v \<noteq> 0"
    using nz by force
  have "v0 \<in> set (List.map_filter (\<lambda>x. x) ?os)"
    unfolding set_map_filter_groups using ne by blast
  then obtain y ys where y: "List.map_filter (\<lambda>x. x) ?os = y # ys"
    by (cases "List.map_filter (\<lambda>x. x) ?os") auto
  have "Math_max (map (\<lambda>o'. or_else o' NegInfinity) ?os)
      = (case List.map_filter (\<lambda>x. x) ?os of
           [] \<Rightarrow> NegInfinity | y # ys \<Rightarrow> Num (Max (set (y # ys))))"
    using z by (rule Math_max_or_else)
  then have "Math_max (map (\<lambda>o'. or_else o' NegInfinity) ?os) = Num (Max (set (y # ys)))"
    unfolding y by (simp only: list.case)
  moreover have "set (y # ys) = {v. \<exists>t. f t = Some v}"
    unfolding y [symmetric] by (rule set_map_filter_groups)
  moreover have "map (\<lambda>o'. or_else o' NegInfinity) ?os
      = map (\<lambda>t. or_else (f t) NegInfinity) token_types"
    by (simp add: comp_def)
  ultimately show ?thesis by metis
qed

lemma Math_min_groups:
  assumes nz: "\<And>t v. f t = Some v \<Longrightarrow> v \<noteq> 0" and ne: "f t0 = Some v0"
  shows "Math_min (map (\<lambda>t. or_else (f t) PosInfinity) token_types)
         = Num (Min {v. \<exists>t. f t = Some v})"
proof -
  let ?os = "map f token_types"
  have z: "\<And>v. Some v \<in> set ?os \<Longrightarrow> v \<noteq> 0"
    using nz by force
  have "v0 \<in> set (List.map_filter (\<lambda>x. x) ?os)"
    unfolding set_map_filter_groups using ne by blast
  then obtain y ys where y: "List.map_filter (\<lambda>x. x) ?os = y # ys"
    by (cases "List.map_filter (\<lambda>x. x) ?os") auto
  have "Math_min (map (\<lambda>o'. or_else o' PosInfinity) ?os)
      = (case List.map_filter (\<lambda>x. x) ?os of
           [] \<Rightarrow> PosInfinity | y # ys \<Rightarrow> Num (Min (set (y # ys))))"
    using z by (rule Math_min_or_else)
  then have "Math_min (map (\<lambda>o'. or_else o' PosInfinity) ?os) = Num (Min (set (y # ys)))"
    unfolding y by (simp only: list.case)
  moreover have "set (y # ys) = {v. \<exists>t. f t = Some v}"
    unfolding y [symmetric] by (rule set_map_filter_groups)
  moreover have "map (\<lambda>o'. or_else o' PosInfinity) ?os
      = map (\<lambda>t. or_else (f t) PosInfinity) token_types"
    by (simp add: comp_def)
  ultimately show ?thesis by metis
qed

lemma set_all_positions:
  "set (all_positions r) = (\<Union>t. set (indexes (tokenGroups r t)))"
  using token_types_all by (auto simp: all_positions_def)

lemma lastIndex_in_group:
  "lastIndex items = Some v \<Longrightarrow> v \<in> set (indexes items) \<and> (\<forall>p \<in> set (indexes items). p \<le> v)"
  using Max_in [of "set (indexes items)"]
  by (auto simp: lastIndex_Some_iff indexes_def)

lemma firstIndex_in_group:
  "firstIndex items = Some v \<Longrightarrow> v \<in> set (indexes items) \<and> (\<forall>p \<in> set (indexes items). v \<le> p)"
  using Min_in [of "set (indexes items)"]
  by (auto simp: firstIndex_Some_iff indexes_def)

lemma group_has_lastIndex:
  "p \<in> set (indexes items) \<Longrightarrow> \<exists>v. lastIndex items = Some v"
  by (cases items) (auto simp: lastIndex_Some_iff indexes_def)

lemma group_has_firstIndex:
  "p \<in> set (indexes items) \<Longrightarrow> \<exists>v. firstIndex items = Some v"
  by (cases items) (auto simp: firstIndex_Some_iff indexes_def)

lemma Max_lasts:
  assumes "lastIndex (tokenGroups r t0) = Some v0"
  shows "Max {v. \<exists>t. lastIndex (tokenGroups r t) = Some v} = Max (set (all_positions r))"
proof -
  let ?L = "{v. \<exists>t. lastIndex (tokenGroups r t) = Some v}"
  let ?P = "set (all_positions r)"
  have sub: "?L \<subseteq> ?P"
    using lastIndex_in_group by (fastforce simp: set_all_positions)
  then have fin: "finite ?L"
    by (rule finite_subset) simp
  have ne: "v0 \<in> ?L" using assms by blast
  have up: "\<exists>v \<in> ?L. p \<le> v" if "p \<in> ?P" for p
  proof -
    from that obtain t where t: "p \<in> set (indexes (tokenGroups r t))"
      by (auto simp: set_all_positions)
    then obtain v where v: "lastIndex (tokenGroups r t) = Some v"
      using group_has_lastIndex by blast
    then have "p \<le> v" using t lastIndex_in_group by blast
    with v show ?thesis by blast
  qed
  show ?thesis
  proof (rule antisym)
    have "Max ?L \<in> ?L" using fin ne by (intro Max_in) auto
    then have "Max ?L \<in> ?P" using sub by blast
    then show "Max ?L \<le> Max ?P" by simp
    have "Max ?P \<in> ?P" using sub ne by (intro Max_in) auto
    then obtain v where v: "v \<in> ?L" "Max ?P \<le> v" using up by blast
    have "v \<le> Max ?L" using v(1) fin by (rule_tac Max_ge)
    with v(2) show "Max ?P \<le> Max ?L" by simp
  qed
qed

lemma Min_firsts:
  assumes "firstIndex (tokenGroups r t0) = Some v0"
  shows "Min {v. \<exists>t. firstIndex (tokenGroups r t) = Some v} = Min (set (all_positions r))"
proof -
  let ?L = "{v. \<exists>t. firstIndex (tokenGroups r t) = Some v}"
  let ?P = "set (all_positions r)"
  have sub: "?L \<subseteq> ?P"
    using firstIndex_in_group by (fastforce simp: set_all_positions)
  then have fin: "finite ?L"
    by (rule finite_subset) simp
  have ne: "v0 \<in> ?L" using assms by blast
  have down: "\<exists>v \<in> ?L. v \<le> p" if "p \<in> ?P" for p
  proof -
    from that obtain t where t: "p \<in> set (indexes (tokenGroups r t))"
      by (auto simp: set_all_positions)
    then obtain v where v: "firstIndex (tokenGroups r t) = Some v"
      using group_has_firstIndex by blast
    then have "v \<le> p" using t firstIndex_in_group by blast
    with v show ?thesis by blast
  qed
  show ?thesis
  proof (rule antisym)
    have "Min ?L \<in> ?L" using fin ne by (intro Min_in) auto
    then have "Min ?L \<in> ?P" using sub by blast
    then show "Min ?P \<le> Min ?L" by simp
    have "Min ?P \<in> ?P" using sub ne by (intro Min_in) auto
    then obtain v where v: "v \<in> ?L" "v \<le> Min ?P" using down by blast
    have "Min ?L \<le> v" using v(1) fin by (rule_tac Min_le)
    with v(2) show "Min ?L \<le> Min ?P" by simp
  qed
qed

lemma surrounded_as_specified:
  assumes pos: "list_all (\<lambda>p. 0 < p) (all_positions r)"
  shows "areSplattributesSurrounded r = spec_sandwiched r"
proof (cases "lastIndex (tokenGroups r SPLATTRIBUTES)")
  case None
  then show ?thesis
    by (simp add: areSplattributesSurrounded_def spec_sandwiched_def to_number_def js_gt_def
        Let_def)
next
  case (Some sv)
  have P: "0 < p" if "p \<in> set (all_positions r)" for p
    using pos that by (simp add: list_all_iff)
  have nzl: "v \<noteq> 0" if "lastIndex (tokenGroups r t) = Some v" for t v
  proof -
    have "v \<in> set (all_positions r)"
      using that lastIndex_in_group by (fastforce simp: set_all_positions)
    then show ?thesis using P by fastforce
  qed
  have nzf: "v \<noteq> 0" if "firstIndex (tokenGroups r t) = Some v" for t v
  proof -
    have "v \<in> set (all_positions r)"
      using that firstIndex_in_group by (fastforce simp: set_all_positions)
    then show ?thesis using P by fastforce
  qed
  have svg: "sv \<in> set (indexes (tokenGroups r SPLATTRIBUTES))"
    using Some lastIndex_in_group by blast
  then obtain fv where fv: "firstIndex (tokenGroups r SPLATTRIBUTES) = Some fv"
    using group_has_firstIndex by blast
  have mx: "Math_max (map (\<lambda>t. or_else (lastIndex (tokenGroups r t)) NegInfinity) token_types)
      = Num (Max (set (all_positions r)))"
    using Math_max_groups [of "\<lambda>t. lastIndex (tokenGroups r t)", OF nzl Some]
      Max_lasts [OF Some]
    by simp
  have mn: "Math_min (map (\<lambda>t. or_else (firstIndex (tokenGroups r t)) PosInfinity) token_types)
      = Num (Min (set (all_positions r)))"
    using Math_min_groups [of "\<lambda>t. firstIndex (tokenGroups r t)", OF nzf fv]
      Min_firsts [OF fv]
    by simp
  have svp: "sv \<in> set (all_positions r)"
    using svg by (auto simp: set_all_positions)
  then obtain p ps where ap: "all_positions r = p # ps"
    by (cases "all_positions r") auto
  have "0 < sv" using svp P by simp
  then have c: "areSplattributesSurrounded r
      = (Min (set (all_positions r)) < sv \<and> sv < Max (set (all_positions r)))"
    using Some
    by (simp add: areSplattributesSurrounded_def to_number_def js_gt_def Let_def mx mn)
  have s: "spec_sandwiched r
      = (Min (set (all_positions r)) < sv \<and> sv < Max (set (all_positions r)))"
    using Some
    by (simp add: spec_sandwiched_def ap fold_max_Max fold_min_Min del: set_simps)
  show ?thesis
    using c s by simp
qed

text \<open>
  When the method holds, the check of the node logs nothing, requests nothing and returns
  the node as it was.
\<close>

lemma some_unalphabetized_cong:
  "tokenGroups r' = tokenGroups r \<Longrightarrow> some_unalphabetized r' ts = some_unalphabetized r ts"
  by (induction ts) (auto split: option.splits)

lemma isAttributeUnordered_surrounded:
  "areSplattributesSurrounded r \<Longrightarrow>
   isAttributeUnordered r t = Some (False, snd (getAppliedOrder r))"
  using surrounded_cong [of "snd (getAppliedOrder r)" r]
  by (simp add: isAttributeUnordered_def getOrder_def Let_def)

lemma check_categories_surrounded:
  assumes "areSplattributesSurrounded r" "some_unalphabetized r token_types = Some un"
  shows "\<exists>r'. check_categories r node ts = Some (r', node)
           \<and> logged r' = logged r \<and> replaced r' = replaced r"
  using assms
proof (induction ts arbitrary: r)
  case Nil
  then show ?case by simp
next
  case (Cons t ts)
  let ?r = "snd (getAppliedOrder r)"
  have s: "areSplattributesSurrounded ?r"
    using Cons.prems(1) surrounded_cong [of ?r r] by simp
  have u: "some_unalphabetized ?r token_types = Some un"
    using Cons.prems(2) some_unalphabetized_cong [of ?r r] by simp
  from Cons.IH [OF s u] obtain r' where
    "check_categories ?r node ts = Some (r', node)" "logged r' = logged ?r"
    "replaced r' = replaced ?r"
    by blast
  then show ?case
    using Cons.prems by (simp add: isAttributeUnordered_surrounded)
qed

lemma those_Some: "None \<notin> set xs \<Longrightarrow> \<exists>ys. those xs = Some ys"
proof (induction xs)
  case Nil
  then show ?case by simp
next
  case (Cons a xs)
  then obtain y ys where "a = Some y" "those xs = Some ys"
    by (cases a) auto
  then show ?case by simp
qed

lemma unalphabetizedItemIndex_Some:
  "list_all (\<lambda>t. tk_source t \<noteq> None) items \<Longrightarrow> \<exists>i. unalphabetizedItemIndex items = Some i"
proof -
  assume "list_all (\<lambda>t. tk_source t \<noteq> None) items"
  then have "None \<notin> set (map tk_source items)"
    by (auto simp: list_all_iff)
  then obtain ys where "those (map tk_source items) = Some ys"
    using those_Some by blast
  then show ?thesis
    by (simp add: unalphabetizedItemIndex_def split: list.splits)
qed

lemma some_unalphabetized_Some:
  "(\<And>t. list_all (\<lambda>t. tk_source t \<noteq> None) (tokenGroups r t)) \<Longrightarrow>
   some_unalphabetized r ts \<noteq> None"
proof (induction ts)
  case Nil
  show ?case by simp
next
  case (Cons t ts)
  from Cons.prems obtain i where "unalphabetizedItemIndex (tokenGroups r t) = Some i"
    using unalphabetizedItemIndex_Some by blast
  moreover have "some_unalphabetized r ts \<noteq> None"
    using Cons by blast
  ultimately show ?case
    by (cases "nth_js (tokenGroups r t) i") (auto simp: findUnalphabetizedToken_def)
qed

lemma set_fold_group:
  "set (fold (\<lambda>(tokenType, node) result. result(tokenType := result tokenType @ [node]))
          tokens g t) \<subseteq> set (g t) \<union> snd ` set tokens"
proof (induction tokens arbitrary: g)
  case Nil
  then show ?case by simp
next
  case (Cons p tokens)
  obtain a b where p: "p = (a, b)"
    by (cases p)
  have "set ((g(a := g a @ [b])) t) \<subseteq> set (g t) \<union> {b}"
    by auto
  with Cons [of "g(a := g a @ [b])"] show ?case
    unfolding p by auto
qed

lemma set_groupTokens: "set (groupTokens tokens t) \<subseteq> snd ` set tokens"
  using set_fold_group [of tokens "\<lambda>_. []" t] by (simp add: groupTokens_def)

lemma grouped_sources:
  assumes "list_all (\<lambda>t. tk_source t \<noteq> None) (attributes node @ modifiers node @ comments node)"
  shows "list_all (\<lambda>t. tk_source t \<noteq> None) (tokenGroups (grouped r node) t)"
proof -
  have "set (tokenGroups (grouped r node) t)
      \<subseteq> set (attributes node @ modifiers node @ comments node)"
    using set_groupTokens [of "getElementNodeTokens node" t]
    by (auto simp: grouped_def makeTokenGroups_def getElementNodeTokens_def image_Un
        image_image)
  with assms show ?thesis
    by (auto simp: list_all_iff)
qed

lemma surrounded_node_untouched:
  assumes "areSplattributesSurrounded (grouped r node)"
    and "list_all (\<lambda>t. tk_source t \<noteq> None) (attributes node @ modifiers node @ comments node)"
  shows "\<exists>r'. checkElementAttributesOrder r node = Some (r', node)
           \<and> logged r' = logged r \<and> replaced r' = replaced r"
proof (cases "truthy_string (el_source node)")
  case False
  then show ?thesis by (simp add: checkElementAttributesOrder_def)
next
  case True
  obtain un where "some_unalphabetized (grouped r node) token_types = Some un"
    using some_unalphabetized_Some [of "grouped r node" token_types]
      grouped_sources [OF assms(2), of r]
    by (cases "some_unalphabetized (grouped r node) token_types") auto
  from check_categories_surrounded [OF assms(1) this, of node "order (config r)"] True
  show ?thesis
    by (simp add: checkElementAttributesOrder_def grouped_def makeTokenGroups_def)
qed

lemma sandwiched_node_untouched:
  assumes "list_all (\<lambda>p. 0 < p) (all_positions (grouped r node))"
    and "spec_sandwiched (grouped r node)"
    and "list_all (\<lambda>t. tk_source t \<noteq> None)
           (attributes node @ modifiers node @ comments node)"
  shows "\<exists>r'. checkElementAttributesOrder r node = Some (r', node)
           \<and> logged r' = logged r \<and> replaced r' = replaced r"
  using assms surrounded_as_specified [of "grouped r node"]
    surrounded_node_untouched [of r node]
  by simp

text \<open>
  C1. The claim: a node whose spread lies strictly between the smallest first position
  and the largest last position gets no diagnostic and no fix. On the element
  \<open>spread_between_div\<close> the spread, at position 12, lies strictly between the
  positions 0 and 40 of the two attributes; \<^verbatim>\<open>areSplattributesSurrounded\<close> reads
  the first position 0 as missing and returns false, detection reports the second
  attribute, and the fix requests a replacement.
\<close>

theorem sandwiched_at_column_zero_is_checked:
  "spec_sandwiched (grouped (new_rule DEFAULT_CONFIG ''detect'') spread_between_div)
   \<and> all_positions (grouped (new_rule DEFAULT_CONFIG ''detect'') spread_between_div)
       = [0, 40, 12]
   \<and> \<not> areSplattributesSurrounded
         (grouped (new_rule DEFAULT_CONFIG ''detect'') spread_between_div)
   \<and> map_option (\<lambda>(r, n). map message (logged r))
        (checkElementAttributesOrder (new_rule DEFAULT_CONFIG ''detect'') spread_between_div)
       = Some [''Attribute a=\"2\" is not alphabetized'']
   \<and> map_option (\<lambda>(r, n). map (\<lambda>e. map tk_name (attributes e)) (replaced r))
        (checkElementAttributesOrder (new_rule DEFAULT_CONFIG ''fix'') spread_between_div)
       = Some [[Some ''...attributes'', Some ''a'', Some ''b''],
               [Some ''...attributes'', Some ''a'', Some ''b'']]"
  by code_simp

subsection \<open>Comments after a fix\<close>

text \<open>
  C2. The claim: after a fix every comment stands before its anchor, a trailing comment
  stays at the end, and no comment is dropped. On \<open>trailing_comment_div\<close> the
  modifier precedes the argument, so the order fix runs; \<^verbatim>\<open>orderComment\<close> returns
  the sorted tokens without the trailing comment, the replacement has no comment, and
  the original node's comments are gone as well.
\<close>

theorem trailing_comment_is_dropped:
  "comments trailing_comment_div = [parsed_comment '' note '' 1 34 ''{{! note }}'']
   \<and> map_option (\<lambda>(s, n). (map tk_source s, comments n))
        (orderComment (grouped (new_rule DEFAULT_CONFIG ''fix'') trailing_comment_div)
           trailing_comment_div
           (attributes trailing_comment_div @ modifiers trailing_comment_div))
       = Some ([Some ''@a=\"1\"'', Some ''{{on \"click\" this.f}}''], [])
   \<and> map_option (\<lambda>(r, n). (map comments (replaced r), comments n))
        (checkElementAttributesOrder (new_rule DEFAULT_CONFIG ''fix'') trailing_comment_div)
       = Some ([[]], [])"
  by code_simp

subsection \<open>The applied order across nodes\<close>

text \<open>
  While the field is unset, \<^verbatim>\<open>getAppliedOrder\<close> computes the order that the
  specification words, for tokens at positions from 0 up.
\<close>

lemma fold_js_max2_Num:
  "fold (\<lambda>x acc. js_max2 acc x) (map Num xs) (Num a) = Num (fold max xs a)"
  by (induction xs arbitrary: a) (auto simp: max_def)

lemma fold_js_min2_Num:
  "fold (\<lambda>x acc. js_min2 acc x) (map Num xs) (Num a) = Num (fold min xs a)"
  by (induction xs arbitrary: a) (auto simp: min_def)

lemma Math_max_Num: "Math_max (map Num (x # xs)) = Num (Max (set (x # xs)))"
  by (simp add: Math_max_def fold_js_max2_Num Max.set_eq_fold del: set_simps)

lemma Math_min_Num: "Math_min (map Num (x # xs)) = Num (Min (set (x # xs)))"
  by (simp add: Math_min_def fold_js_min2_Num Min.set_eq_fold del: set_simps)

lemma lastIndex_in_indexes: "lastIndex items = Some v \<Longrightarrow> v \<in> set (indexes items)"
proof -
  assume a: "lastIndex items = Some v"
  then obtain x xs where x: "indexes items = x # xs" "v = fold max xs x"
    by (auto simp: lastIndex_def split: list.splits)
  have "fold max xs x = Max (set (x # xs))"
    by (simp add: Max.set_eq_fold del: set_simps)
  moreover have "Max (set (x # xs)) \<in> set (x # xs)"
    by (rule Max_in) simp_all
  ultimately show ?thesis using x by simp
qed

lemma lastIndex_in_lasts:
  "lastIndex (tokenGroups r t) = Some v \<Longrightarrow> v \<in> set (integer_lastIndexes r)"
  using token_types_all [of t]
  by (force simp: integer_lastIndexes_def set_map_filter_iff)

lemma lasts_in_positions:
  "v \<in> set (integer_lastIndexes r) \<Longrightarrow> v \<in> set (all_positions r)"
  by (auto simp: integer_lastIndexes_def set_map_filter_iff all_positions_def
      dest: lastIndex_in_indexes)

lemma computeAppliedOrder_as_specified:
  assumes nonneg: "list_all (\<lambda>p. 0 \<le> p) (all_positions r)"
  shows "computeAppliedOrder r = spec_appliedOrder r"
proof (cases "lastIndex (tokenGroups r SPLATTRIBUTES)")
  case None
  then show ?thesis
    by (simp add: computeAppliedOrder_def spec_appliedOrder_def strict_eq_def
        truthy_index_def Let_def)
next
  case (Some sv)
  let ?lasts = "integer_lastIndexes r"
  have sv: "sv \<in> set ?lasts"
    using Some by (rule lastIndex_in_lasts)
  then obtain x xs where l: "?lasts = x # xs"
    by (cases ?lasts) auto
  have pos: "\<And>v. v \<in> set ?lasts \<Longrightarrow> 0 \<le> v"
    using nonneg lasts_in_positions by (auto simp: list_all_iff)
  have mx: "Math_max (map Num ?lasts) = Num (Max (set ?lasts))"
    unfolding l by (rule Math_max_Num)
  have mn: "Math_min (map Num ?lasts) = Num (Min (set ?lasts))"
    unfolding l by (rule Math_min_Num)
  have fmx: "fold max ?lasts sv = Max (set ?lasts)"
    using sv Max.set_eq_fold [of sv ?lasts] by (simp add: insert_absorb)
  have fmn: "fold min ?lasts sv = Min (set ?lasts)"
    using sv Min.set_eq_fold [of sv ?lasts] by (simp add: insert_absorb)
  have zero: "sv = 0 \<Longrightarrow> sv = Min (set ?lasts)"
  proof -
    assume z: "sv = 0"
    have "Min (set ?lasts) \<le> sv" using sv by simp
    moreover have "0 \<le> Min (set ?lasts)"
      using pos l by (simp del: set_simps)
    ultimately show ?thesis using z by simp
  qed
  show ?thesis
  proof (cases "lastIndex (tokenGroups r ATTRIBUTES)")
    case None
    with Some show ?thesis
      by (simp add: computeAppliedOrder_def spec_appliedOrder_def strict_eq_def
          truthy_index_def Let_def mx mn fmx fmn js_gt_def to_number_def)
  next
    case (Some av)
    have "0 \<le> av"
      using Some pos lastIndex_in_lasts by blast
    with Some \<open>lastIndex (tokenGroups r SPLATTRIBUTES) = Some sv\<close> zero show ?thesis
      by (auto simp: computeAppliedOrder_def spec_appliedOrder_def strict_eq_def
          truthy_index_def Let_def mx mn fmx fmn js_gt_def to_number_def)
  qed
qed

lemma getAppliedOrder_unset:
  "appliedOrder r = None \<Longrightarrow> list_all (\<lambda>p. 0 \<le> p) (all_positions r) \<Longrightarrow>
   fst (getAppliedOrder r) = spec_appliedOrder r"
  by (simp add: getAppliedOrder_def computeAppliedOrder_as_specified)

text \<open>
  C3. The claim: the applied order of a node is computed from that node's tokens only and
  is computed afresh for the next node. One rule instance visits
  \<open>spread_first_div\<close> and then \<open>spread_last_Foo\<close>: the order stored for the first
  node, spread first, is still the field's value after the second, and the second node,
  which a fresh instance accepts with the spread last, is reported.
\<close>

theorem appliedOrder_kept_for_next_node:
  "map_option (\<lambda>(r, n). (map message (logged r), appliedOrder r))
     (checkElementAttributesOrder (new_rule DEFAULT_CONFIG ''detect'') spread_last_Foo)
    = Some ([], Some [ARGUMENTS, ATTRIBUTES, MODIFIERS, SPLATTRIBUTES])
   \<and> map_option (\<lambda>(r, n). (map message (logged r), appliedOrder r))
        (checkElementAttributesOrder (new_rule DEFAULT_CONFIG ''detect'') spread_first_div)
       = Some ([], Some [SPLATTRIBUTES, ARGUMENTS, ATTRIBUTES, MODIFIERS])
   \<and> map_option (\<lambda>(r, n). (map message (logged r), appliedOrder r))
        (Option.bind
           (checkElementAttributesOrder (new_rule DEFAULT_CONFIG ''detect'') spread_first_div)
           (\<lambda>(r, n). checkElementAttributesOrder r spread_last_Foo))
       = Some ([''Argument @a=\"1\" must go after arguments''],
               Some [SPLATTRIBUTES, ARGUMENTS, ATTRIBUTES, MODIFIERS])"
  by code_simp

text \<open>
  C5. The claim: for every node the applied order follows from the last positions of the
  spread and the attributes as section 4.3 words it. For \<open>spread_last_Foo\<close> visited
  after \<open>spread_first_div\<close> the spread has the largest last position, so the
  specification puts it last; \<^verbatim>\<open>getAppliedOrder\<close> returns the order of the earlier
  node, spread first.
\<close>

theorem appliedOrder_of_second_node:
  "map_option
     (\<lambda>(r, n). (lastIndex (tokenGroups (grouped r spread_last_Foo) SPLATTRIBUTES),
                Math_max (map Num (integer_lastIndexes (grouped r spread_last_Foo))),
                spec_appliedOrder (grouped r spread_last_Foo),
                fst (getAppliedOrder (grouped r spread_last_Foo))))
     (checkElementAttributesOrder (new_rule DEFAULT_CONFIG ''detect'') spread_first_div)
    = Some (Some 12, Num 12,
            [ARGUMENTS, ATTRIBUTES, MODIFIERS, SPLATTRIBUTES],
            [SPLATTRIBUTES, ARGUMENTS, ATTRIBUTES, MODIFIERS])"
  by code_simp

subsection \<open>The order violation by rank\<close>

text \<open>
  A configuration that \<^verbatim>\<open>parseConfig\<close> accepts names the three categories, so the
  order computed from it has the four entries that the ranks 0 to 3 read.
\<close>

lemma computeAppliedOrder_length:
  assumes "{ARGUMENTS, ATTRIBUTES, MODIFIERS} \<subseteq> set (order (config r))"
  shows "4 \<le> length (computeAppliedOrder r)"
proof -
  let ?c = "filter (\<lambda>attribute. attribute \<noteq> SPLATTRIBUTES) (order (config r))"
  have "{ARGUMENTS, ATTRIBUTES, MODIFIERS} \<subseteq> set ?c"
    using assms by auto
  then have "card {ARGUMENTS, ATTRIBUTES, MODIFIERS} \<le> card (set ?c)"
    by (intro card_mono) simp_all
  also have "card (set ?c) \<le> length ?c"
    by (rule card_length)
  finally have "3 \<le> length ?c"
    by simp
  then show ?thesis
    by (simp add: computeAppliedOrder_def Let_def)
qed




subsection \<open>Fixing twice\<close>

text \<open>
  C6. The claim: a fixed node reports no further violation, and fixing it again changes
  nothing. Detection reports the second attribute of \<open>underscore_div\<close>, whose text
  after the leading underscore is compared; the fix sorts by the whole name, underscore
  included, and both replacements it requests have the tag of the input and its
  attributes, with their values, in the order of the input, and nothing else: the
  fixed template is the template that detection reports.
\<close>

theorem fix_keeps_reported_order:
  "map_option (\<lambda>(r, n). map message (logged r))
     (checkElementAttributesOrder (new_rule DEFAULT_CONFIG ''detect'') underscore_div)
    = Some [''Attribute a=\"1\" is not alphabetized'']
   \<and> (tag underscore_div, map (\<lambda>a. (tk_name a, tk_value a)) (attributes underscore_div),
        modifiers underscore_div, comments underscore_div, children underscore_div)
       = (''div'', [(Some ''_b'', ''2''), (Some ''a'', ''1'')], [], [], [])
   \<and> map_option
        (\<lambda>(r, n). map (\<lambda>e. (tag e, map (\<lambda>a. (tk_name a, tk_value a)) (attributes e),
                               modifiers e, comments e, children e))
                     (replaced r))
        (checkElementAttributesOrder (new_rule DEFAULT_CONFIG ''fix'') underscore_div)
       = Some [(''div'', [(Some ''_b'', ''2''), (Some ''a'', ''1'')], [], [], []),
               (''div'', [(Some ''_b'', ''2''), (Some ''a'', ''1'')], [], [], [])]"
  by code_simp

subsection \<open>Fixes, the node and the host tree\<close>




subsection \<open>The message\<close>



subsection \<open>Parsing the configuration\<close>

text \<open>
  C9. \<^verbatim>\<open>parseConfig\<close> raises the configuration error exactly when the shape check
  rejects the raw value or the raw value is an object with an \<^verbatim>\<open>order\<close> that
  lacks one of arguments, attributes, modifiers. An accepted \<^verbatim>\<open>false\<close> gives the
  disabled marker, and every other accepted value gives a configuration.
\<close>

theorem parseConfig_error_iff:
  "(parseConfig valid raw = Inl ConfigError \<longleftrightarrow>
      (\<not> valid raw \<or>
       (\<exists>obj ord. raw = RawObj obj \<and> raw_order obj = Some ord \<and>
          \<not> {ARGUMENTS, ATTRIBUTES, MODIFIERS} \<subseteq> set ord)))
   \<and> (valid (RawBool False) \<longrightarrow> parseConfig valid (RawBool False) = Inr Disabled)
   \<and> (parseConfig valid raw \<noteq> Inl ConfigError \<and> raw \<noteq> RawBool False \<longrightarrow>
        (\<exists>c. parseConfig valid raw = Inr (Enabled c)))"
  by (cases raw)
     (auto simp: parseConfig_def split: option.splits)

theorem parseConfig_error_iff_witness:
  "parseConfig (\<lambda>_. True) (RawBool False) = Inr Disabled
   \<and> parseConfig (\<lambda>_. True)
        (RawObj \<lparr>raw_alphabetize = None, raw_order = Some [ARGUMENTS, ATTRIBUTES]\<rparr>)
       = Inl ConfigError
   \<and> (\<exists>c. parseConfig (\<lambda>_. True)
        (RawObj \<lparr>raw_alphabetize = Some False,
                 raw_order = Some [MODIFIERS, ARGUMENTS, ATTRIBUTES]\<rparr>) = Inr (Enabled c))"
  using parseConfig_error_iff [of "\<lambda>_. True" "RawBool False"]
    parseConfig_error_iff [of "\<lambda>_. True"
      "RawObj \<lparr>raw_alphabetize = None, raw_order = Some [ARGUMENTS, ATTRIBUTES]\<rparr>"]
    parseConfig_error_iff [of "\<lambda>_. True"
      "RawObj \<lparr>raw_alphabetize = Some False,
               raw_order = Some [MODIFIERS, ARGUMENTS, ATTRIBUTES]\<rparr>"]
  by auto



end
